theory Spec2Isabelle
  imports Main
begin

section \<open>Strings\<close>

text \<open>
  The handler of \<^verbatim>\<open>app/api/chat/route.ts\<close> works on JavaScript strings. They are
  modelled as \<^typ>\<open>string\<close>, a list of bytes: an ASCII character is one \<^typ>\<open>char\<close>, any
  other character is the bytes of its UTF-8 encoding, all of them above 127. Every
  phrase the code searches for is ASCII, so a phrase occurs in the JavaScript string
  exactly when its bytes occur in the encoded one.
\<close>

definition nl :: char where
  "nl = CHR 0x0A"

text \<open>
  \<^verbatim>\<open>String.prototype.toLowerCase\<close>, on the characters that matter here. The two
  characters outside ASCII whose lower case contains an ASCII letter (U+0130 gives
  \<^verbatim>\<open>i\<close> followed by U+0307, U+212A gives \<^verbatim>\<open>k\<close>) cannot complete one of the phrases of
  \<^verbatim>\<open>classifyIntent\<close>: no phrase contains \<^verbatim>\<open>k\<close> and none ends in \<^verbatim>\<open>i\<close>.
\<close>

definition toLowerChar :: "char \<Rightarrow> char" where
  "toLowerChar c =
     (case map_of (zip ''ABCDEFGHIJKLMNOPQRSTUVWXYZ'' ''abcdefghijklmnopqrstuvwxyz'') c of
        Some d \<Rightarrow> d
      | None \<Rightarrow> c)"

definition toLowerCase :: "string \<Rightarrow> string" where
  "toLowerCase s = map toLowerChar s"

fun startsWith :: "string \<Rightarrow> string \<Rightarrow> bool" where
  "startsWith s [] = True"
| "startsWith [] (p # ps) = False"
| "startsWith (c # cs) (p # ps) = (c = p \<and> startsWith cs ps)"

text \<open>\<^verbatim>\<open>String.prototype.includes\<close>: the phrase starts at some position of the text.\<close>

fun str_includes :: "string \<Rightarrow> string \<Rightarrow> bool" where
  "str_includes [] p = startsWith [] p"
| "str_includes (c # cs) p = (startsWith (c # cs) p \<or> str_includes cs p)"

text \<open>\<^verbatim>\<open>Array.prototype.join\<close> on strings.\<close>

fun join :: "string \<Rightarrow> string list \<Rightarrow> string" where
  "join sep [] = []"
| "join sep [x] = x"
| "join sep (x # y # ys) = x @ sep @ join sep (y # ys)"

text \<open>
  Truthiness of a \<^verbatim>\<open>string | null\<close> value, as tested by \<^verbatim>\<open>if (effectiveLocation)\<close>:
  \<^verbatim>\<open>null\<close> and the empty string are falsy.
\<close>

fun truthy :: "string option \<Rightarrow> bool" where
  "truthy None = False"
| "truthy (Some s) = (s \<noteq> [])"

text \<open>A \<^verbatim>\<open>string | null\<close> value inside a template literal.\<close>

fun interpolate :: "string option \<Rightarrow> string" where
  "interpolate None = ''null''"
| "interpolate (Some s) = s"

section \<open>Intent classification\<close>

datatype intent = Quiz | Chat | Explain

definition classifyIntent :: "string \<Rightarrow> intent" where
  "classifyIntent userText =
     (let text = toLowerCase userText in
      if str_includes text ''quiz'' \<or>
         str_includes text ''assessment'' \<or>
         str_includes text ''which career'' \<or>
         str_includes text ''help me decide''
      then Quiz
      else if str_includes text ''explain'' \<or>
              str_includes text ''difference between'' \<or>
              str_includes text ''what is the difference'' \<or>
              str_includes text ''how does''
      then Explain
      else Chat)"

definition defaultFollowups :: "string list" where
  "defaultFollowups =
     take 3 [''Find local apprenticeships'',
             ''Explore training programs'',
             ''Compare typical salaries (BLS)'']"

section \<open>Data model and collaborators\<close>

datatype role = System | User | Assistant

record message =
  msg_id :: string
  msg_role :: role
  msg_content :: string

record preamble_result =
  messagesForLLM :: "message list"
  lastUserRaw :: string
  effectiveLocation :: "string option"
  internalRAG :: string
  domainGuarded :: bool

record listing =
  title :: string
  org :: string
  location :: string

text \<open>
  A thrown value \<^verbatim>\<open>e\<close>, as far as the handler looks at it: it only evaluates
  \<^verbatim>\<open>e.message === 'LOCATION_REQUIRED'\<close>.
  \<^item> \<open>Error m\<close> is a value whose property \<^verbatim>\<open>message\<close> is the string \<open>m\<close>, as an
    \<^verbatim>\<open>Error\<close> object has it;
  \<^item> \<open>NoMessage\<close> is any other value that is not \<^verbatim>\<open>null\<close> or \<^verbatim>\<open>undefined\<close>: reading its
    \<^verbatim>\<open>message\<close> gives no string (a thrown string or number, an object without the
    property);
  \<^item> \<open>Nullish\<close> is a thrown \<^verbatim>\<open>null\<close> or \<^verbatim>\<open>undefined\<close>: reading a property of it raises a
    \<^verbatim>\<open>TypeError\<close>;
  \<^item> \<open>TypeError\<close> is that \<^verbatim>\<open>TypeError\<close>. Its message is a text of the engine about the
    failed read, which is not \<^verbatim>\<open>LOCATION_REQUIRED\<close>.
\<close>

datatype error = Error string | NoMessage | Nullish | TypeError

text \<open>
  The test \<^verbatim>\<open>e.message === 'LOCATION_REQUIRED'\<close>: its truth value, or the error that
  evaluating it raises.
\<close>

fun messageIsLocationRequired :: "error \<Rightarrow> error + bool" where
  "messageIsLocationRequired (Error m) = Inr (m = ''LOCATION_REQUIRED'')"
| "messageIsLocationRequired NoMessage = Inr False"
| "messageIsLocationRequired Nullish = Inl TypeError"
| "messageIsLocationRequired TypeError = Inr False"

text \<open>
  The collaborators imported from \<^verbatim>\<open>@/lib/orchestrator\<close>, \<^verbatim>\<open>@/lib/marketplace\<close> and
  \<^verbatim>\<open>openai\<close> are parameters of the handler. Each call either throws (\<open>Inl\<close>) or returns
  (\<open>Inr\<close>). \<open>completionsCreate\<close> stands for \<^verbatim>\<open>openai.chat.completions.create\<close> together
  with the stream it opens: when it returns, its value is the whole text the stream
  delivers, which is the argument \<^verbatim>\<open>completion\<close> of \<^verbatim>\<open>onFinal\<close>. A stream that breaks
  after it was opened never reaches \<^verbatim>\<open>onFinal\<close> and is left to the transport.
\<close>

record env =
  orchestratePreamble :: "message list \<Rightarrow> string option \<Rightarrow> error + preamble_result"
  completionsCreate :: "message list \<Rightarrow> error + string"
  findFeaturedMatching :: "string \<Rightarrow> string option \<Rightarrow> error + listing list"
  generateFollowups :: "message list \<Rightarrow> string \<Rightarrow> string option \<Rightarrow> error + string list"
  COACH_SYSTEM :: string

text \<open>What the handler does besides computing its response: collaborator calls and log entries.\<close>

datatype event =
    CallPreamble "message list" "string option"
  | ConsoleLogIntent intent
  | CallCompletion "message list"
  | CallFeatured string "string option"
  | CallFollowups "message list" string "string option"
  | ConsoleError string error

record payload =
  finalAnswer :: string
  followups :: "string list"

text \<open>
  \<open>JsonResponse status answer followups\<close> is \<^verbatim>\<open>NextResponse.json({answer, followups}, {status})\<close>,
  with status 200 when the code gives none. \<open>StreamingTextResponse text data\<close> is the
  streamed completion with its side channel: \<open>Some p\<close> when \<^verbatim>\<open>onFinal\<close> appended the
  payload \<open>p\<close> and closed the channel, \<open>None\<close> when \<^verbatim>\<open>onFinal\<close> threw before that.
\<close>

datatype response =
    JsonResponse nat string "string list"
  | StreamingTextResponse string "payload option"

section \<open>Composing the messages for the completion service\<close>

definition composeMessages :: "string \<Rightarrow> string option \<Rightarrow> message list \<Rightarrow> message list" where
  "composeMessages coachSystem effLoc msgs =
     (let systemMessages =
            [\<lparr>msg_id = ''system_prompt'', msg_role = System, msg_content = coachSystem\<rparr>];
          systemMessages =
            (if truthy effLoc
             then systemMessages @
                  [\<lparr>msg_id = ''system_location'', msg_role = System,
                    msg_content = ''User location: '' @ interpolate effLoc\<rparr>]
             else systemMessages)
      in systemMessages @ msgs)"

section \<open>Enrichment after the stream has ended\<close>

definition emDash :: string where
  "emDash = [CHR 0xE2, CHR 0x80, CHR 0x94]"

definition formatListing :: "listing \<Rightarrow> string" where
  "formatListing f =
     ''- **'' @ title f @ ''** '' @ emDash @ '' '' @ org f @ '' ('' @ location f @ '')''"

definition appendFeatured :: "string option \<Rightarrow> string \<Rightarrow> listing list \<Rightarrow> string" where
  "appendFeatured effLoc answer featured =
     (if length featured > 0
      then let locTxt = (if truthy effLoc then '' near '' @ interpolate effLoc else []);
               lines = join [nl] (map formatListing featured)
           in answer @ [nl, nl] @ ''**Featured'' @ locTxt @ '':**'' @ [nl] @ lines
      else answer)"

text \<open>
  Step a of \<^verbatim>\<open>onFinal\<close>: the listing matcher inside its \<^verbatim>\<open>try\<close>/\<^verbatim>\<open>catch\<close>. The value
  the matcher returns is a sequence of listings, so \<^verbatim>\<open>Array.isArray\<close> holds of it and the
  test that remains is the one on its length.
\<close>

definition featuredStep :: "env \<Rightarrow> string \<Rightarrow> string option \<Rightarrow> string \<Rightarrow> event list \<times> string" where
  "featuredStep e lastRaw effLoc completion =
     (case findFeaturedMatching e lastRaw effLoc of
        Inr featured \<Rightarrow>
          ([CallFeatured lastRaw effLoc], appendFeatured effLoc completion featured)
      | Inl err \<Rightarrow>
          ([CallFeatured lastRaw effLoc, ConsoleError ''Error finding featured items:'' err],
           completion))"

text \<open>
  The regular expression \<^verbatim>\<open>/(\n\n\*\*Next Steps:\*\*.*)/is\<close>. Flag \<^verbatim>\<open>i\<close> compares
  characters after \<^verbatim>\<open>Canonicalize\<close>, which for a pattern without the \<^verbatim>\<open>u\<close> flag is the
  upper case of an ASCII letter and never maps a character outside ASCII to an ASCII
  one. Flag \<^verbatim>\<open>s\<close> lets \<^verbatim>\<open>.\<close> match line ends too, so the greedy \<^verbatim>\<open>.*\<close> runs to the end
  of the text: the match is the leftmost occurrence of the heading together with
  everything after it, and \<^verbatim>\<open>replace\<close> (no \<^verbatim>\<open>g\<close> flag) with the empty string keeps the
  text before it. With no occurrence the text is unchanged.
\<close>

definition canonicalize :: "char \<Rightarrow> char" where
  "canonicalize c =
     (case map_of (zip ''abcdefghijklmnopqrstuvwxyz'' ''ABCDEFGHIJKLMNOPQRSTUVWXYZ'') c of
        Some d \<Rightarrow> d
      | None \<Rightarrow> c)"

fun startsWithCI :: "string \<Rightarrow> string \<Rightarrow> bool" where
  "startsWithCI s [] = True"
| "startsWithCI [] (p # ps) = False"
| "startsWithCI (c # cs) (p # ps) = (canonicalize c = canonicalize p \<and> startsWithCI cs ps)"

fun includesCI :: "string \<Rightarrow> string \<Rightarrow> bool" where
  "includesCI [] p = startsWithCI [] p"
| "includesCI (c # cs) p = (startsWithCI (c # cs) p \<or> includesCI cs p)"

definition NEXT_STEPS_PATTERN :: string where
  "NEXT_STEPS_PATTERN = [nl, nl] @ ''**Next Steps:**''"

fun replaceNextSteps :: "string \<Rightarrow> string" where
  "replaceNextSteps [] = []"
| "replaceNextSteps (c # cs) =
     (if startsWithCI (c # cs) NEXT_STEPS_PATTERN then [] else c # replaceNextSteps cs)"

definition NEXT_STEPS_BLOCK :: string where
  "NEXT_STEPS_BLOCK =
     [nl, nl] @ ''**Next Steps**'' @ [nl] @
     ''You can also search for more opportunities on your own:'' @ [nl] @
     ''* [Search SkillStrong Programs](/programs/all)'' @ [nl] @
     ''* [Search SkillStrong Jobs](/jobs/all)'' @ [nl] @
     ''* [Search US Department of Education for programs](https://collegescorecard.ed.gov/)'' @ [nl] @
     ''* [Search for jobs on Indeed.com](https://www.indeed.com/)''"

text \<open>Step b of \<^verbatim>\<open>onFinal\<close>; \<^verbatim>\<open>if (internalRAG)\<close> tests for a non-empty string.\<close>

definition addNextSteps :: "string \<Rightarrow> string \<Rightarrow> string" where
  "addNextSteps rag answerWithFeatured =
     (if rag \<noteq> []
      then replaceNextSteps answerWithFeatured @ NEXT_STEPS_BLOCK
      else answerWithFeatured)"

text \<open>
  \<^verbatim>\<open>onFinal\<close>, closed over the handler's variables \<^verbatim>\<open>messagesForLLM\<close>, \<^verbatim>\<open>lastUserRaw\<close>,
  \<^verbatim>\<open>effectiveLocation\<close> and \<^verbatim>\<open>internalRAG\<close>. The call of the follow-up generator is not
  inside a \<^verbatim>\<open>try\<close>: when it throws, nothing is appended to the side channel.
\<close>

definition onFinal ::
  "env \<Rightarrow> message list \<Rightarrow> string \<Rightarrow> string option \<Rightarrow> string \<Rightarrow> string \<Rightarrow> event list \<times> (error + payload)" where
  "onFinal e msgs lastRaw effLoc rag completion =
     (case featuredStep e lastRaw effLoc completion of
        (evs, answerWithFeatured) \<Rightarrow>
          let finalAnswerWithSteps = addNextSteps rag answerWithFeatured;
              finalMessages =
                msgs @ [\<lparr>msg_id = ''final_answer'', msg_role = Assistant,
                         msg_content = finalAnswerWithSteps\<rparr>]
          in (case generateFollowups e finalMessages finalAnswerWithSteps effLoc of
                Inl err \<Rightarrow>
                  (evs @ [CallFollowups finalMessages finalAnswerWithSteps effLoc], Inl err)
              | Inr fs \<Rightarrow>
                  (evs @ [CallFollowups finalMessages finalAnswerWithSteps effLoc],
                   Inr \<lparr>finalAnswer = finalAnswerWithSteps, followups = fs\<rparr>)))"

section \<open>The request handler\<close>

definition OFF_TOPIC_ANSWER :: string where
  "OFF_TOPIC_ANSWER =
     ''I focus on modern manufacturing careers. We can explore roles like CNC Machinist, Robotics Technician, Welding Programmer, Additive Manufacturing, Maintenance Tech, or Quality Control.''"

definition LOCATION_ANSWER :: string where
  "LOCATION_ANSWER =
     ''To find local results, please set your location using the button in the header.''"

definition APOLOGY_ANSWER :: string where
  "APOLOGY_ANSWER = ''Sorry, I couldn't process that.''"

text \<open>
  The \<^verbatim>\<open>catch\<close> block of \<^verbatim>\<open>POST\<close>, with the values the variables \<^verbatim>\<open>messagesForLLM\<close> and
  \<^verbatim>\<open>effectiveLocation\<close> have when the exception arrives. Nothing inside the block is
  guarded: when the test on the message raises, or when the follow-up generator
  throws, that error leaves the handler.
\<close>

definition catchBranch ::
  "env \<Rightarrow> error \<Rightarrow> message list \<Rightarrow> string option \<Rightarrow> event list \<times> (error + response)" where
  "catchBranch e err msgs effLoc =
     (case messageIsLocationRequired err of
        Inl raised \<Rightarrow> ([], Inl raised)
      | Inr locationRequired \<Rightarrow>
          if locationRequired
          then ([], Inr (JsonResponse 200 LOCATION_ANSWER []))
          else
            let evs = [ConsoleError ''Error in /api/chat route:'' err,
                       CallFollowups msgs APOLOGY_ANSWER effLoc]
            in (case generateFollowups e msgs APOLOGY_ANSWER effLoc of
                  Inl err' \<Rightarrow> (evs, Inl err')
                | Inr errorFollowups \<Rightarrow>
                    (evs, Inr (JsonResponse 500 APOLOGY_ANSWER
                                 (if length errorFollowups > 0 then errorFollowups
                                  else defaultFollowups)))))"

text \<open>
  Step 1.5 of \<^verbatim>\<open>POST\<close>: the variable \<^verbatim>\<open>intent\<close> starts as \<^verbatim>\<open>'chat'\<close> and is assigned,
  and logged, only when \<^verbatim>\<open>lastUserRaw\<close> is non-empty. The classifier is an argument so
  that the handler can be compared under different classifiers. The handler's
  arguments are the fields \<^verbatim>\<open>messages\<close> and \<^verbatim>\<open>location\<close> of the parsed request body; its
  value is the trace of what it did and either the response it returns or the error
  that leaves it.
\<close>

definition intentStep :: "(string \<Rightarrow> intent) \<Rightarrow> string \<Rightarrow> intent \<times> event list" where
  "intentStep classify lastRaw =
     (if lastRaw \<noteq> []
      then (classify lastRaw, [ConsoleLogIntent (classify lastRaw)])
      else (Chat, []))"

definition POST_with ::
  "(string \<Rightarrow> intent) \<Rightarrow> env \<Rightarrow> message list \<Rightarrow> string option \<Rightarrow> event list \<times> (error + response)" where
  "POST_with classify e messages loc =
     (case orchestratePreamble e messages loc of
        Inl err \<Rightarrow>
          (case catchBranch e err [] None of
             (evs, r) \<Rightarrow> (CallPreamble messages loc # evs, r))
      | Inr pre \<Rightarrow>
          (case intentStep classify (lastUserRaw pre) of
             (intent, log) \<Rightarrow>
               if domainGuarded pre
               then (CallPreamble messages loc # log,
                     Inr (JsonResponse 200 OFF_TOPIC_ANSWER defaultFollowups))
               else
                 let composed = composeMessages (COACH_SYSTEM e) (effectiveLocation pre)
                                  (messagesForLLM pre)
                 in (case completionsCreate e composed of
                      Inl err \<Rightarrow>
                        (case catchBranch e err (messagesForLLM pre) (effectiveLocation pre) of
                           (evs, r) \<Rightarrow>
                             (CallPreamble messages loc # log @ [CallCompletion composed] @ evs, r))
                    | Inr completion \<Rightarrow>
                        (case onFinal e (messagesForLLM pre) (lastUserRaw pre)
                                (effectiveLocation pre) (internalRAG pre) completion of
                           (evs, fin) \<Rightarrow>
                             (CallPreamble messages loc # log @ [CallCompletion composed] @ evs,
                              Inr (StreamingTextResponse completion
                                     (case fin of Inl err \<Rightarrow> None | Inr p \<Rightarrow> Some p)))))))"

definition POST :: "env \<Rightarrow> message list \<Rightarrow> string option \<Rightarrow> event list \<times> (error + response)" where
  "POST = POST_with classifyIntent"

section \<open>Observations on traces, responses and texts\<close>

text \<open>
  Recognisers for events of the trace, and the list of follow-ups a result of the
  handler carries to the client, if it carries one.
\<close>

fun isCallCompletion :: "event \<Rightarrow> bool" where
  "isCallCompletion (CallCompletion m) = True"
| "isCallCompletion ev = False"

fun isIntentLog :: "event \<Rightarrow> bool" where
  "isIntentLog (ConsoleLogIntent i) = True"
| "isIntentLog ev = False"

fun emittedFollowups :: "error + response \<Rightarrow> string list option" where
  "emittedFollowups (Inr (JsonResponse st a fs)) = Some fs"
| "emittedFollowups (Inr (StreamingTextResponse t (Some p))) = Some (followups p)"
| "emittedFollowups (Inr (StreamingTextResponse t None)) = None"
| "emittedFollowups (Inl err) = None"



section \<open>Scenarios\<close>

text \<open>
  Collaborators with a fixed outcome each, a preamble result for a conversation of one
  user message, a listing, and a completion that already has a next-steps section, to
  run the handler on concrete requests.
\<close>

definition stubEnv ::
  "(error + preamble_result) \<Rightarrow> (error + string) \<Rightarrow> (error + listing list) \<Rightarrow> (error + string list) \<Rightarrow> env" where
  "stubEnv p c f g =
     \<lparr>orchestratePreamble = (\<lambda>ms l. p),
      completionsCreate = (\<lambda>ms. c),
      findFeaturedMatching = (\<lambda>q l. f),
      generateFollowups = (\<lambda>ms a l. g),
      COACH_SYSTEM = ''You are a manufacturing career coach.''\<rparr>"

definition samplePreamble :: "string \<Rightarrow> string option \<Rightarrow> string \<Rightarrow> bool \<Rightarrow> preamble_result" where
  "samplePreamble raw effLoc rag guarded =
     \<lparr>messagesForLLM = [\<lparr>msg_id = ''m1'', msg_role = User, msg_content = raw\<rparr>],
      lastUserRaw = raw,
      effectiveLocation = effLoc,
      internalRAG = rag,
      domainGuarded = guarded\<rparr>"

definition sampleListing :: listing where
  "sampleListing = \<lparr>title = ''CNC Operator'', org = ''Acme Tooling'', location = ''Austin, TX''\<rparr>"

definition answerWithHeading :: string where
  "answerWithHeading = ''Try welding.'' @ [nl, nl] @ ''**NEXT STEPS:**'' @ [nl] @ ''Call a school.''"

section \<open>Auxiliary facts\<close>

lemma startsWith_iff: "startsWith s p \<longleftrightarrow> (\<exists>w. s = p @ w)"
  by (induction s p rule: startsWith.induct) auto

lemma str_includes_iff: "str_includes s p \<longleftrightarrow> (\<exists>u w. s = u @ p @ w)"
proof (induction s)
  case Nil
  show ?case by (cases p) auto
next
  case (Cons c cs)
  show ?case
  proof
    assume "str_includes (c # cs) p"
    then consider "startsWith (c # cs) p" | "str_includes cs p" by auto
    then show "\<exists>u w. c # cs = u @ p @ w"
    proof cases
      case 1
      then obtain w where "c # cs = p @ w" by (auto simp: startsWith_iff)
      then have "c # cs = [] @ p @ w" by simp
      then show ?thesis by blast
    next
      case 2
      then obtain u w where "cs = u @ p @ w" using Cons.IH by blast
      then have "c # cs = (c # u) @ p @ w" by simp
      then show ?thesis by blast
    qed
  next
    assume "\<exists>u w. c # cs = u @ p @ w"
    then obtain u w where eq: "c # cs = u @ p @ w" by blast
    show "str_includes (c # cs) p"
    proof (cases u)
      case Nil
      with eq have "startsWith (c # cs) p" by (auto simp: startsWith_iff)
      then show ?thesis by simp
    next
      case (Cons a u')
      with eq have "cs = u' @ p @ w" by simp
      then have "str_includes cs p" using Cons.IH by blast
      then show ?thesis by simp
    qed
  qed
qed

lemma intentStep_filter: "filter isCallCompletion (snd (intentStep c raw)) = []"
  by (simp add: intentStep_def)





lemma intentStep_not_log: "filter (\<lambda>ev. \<not> isIntentLog ev) (snd (intentStep c raw)) = []"
  by (simp add: intentStep_def)

lemma catchBranch_followups:
  assumes "\<And>ms a l fs. generateFollowups e ms a l = Inr fs \<Longrightarrow> length fs \<le> 3"
    and "emittedFollowups (snd (catchBranch e err msgs effLoc)) = Some fs"
  shows "length fs \<le> 3"
proof (cases "messageIsLocationRequired err")
  case (Inl raised)
  with assms(2) show ?thesis by (simp add: catchBranch_def)
next
  case test: (Inr locationRequired)
  show ?thesis
  proof (cases locationRequired)
    case True
    with test assms(2) show ?thesis by (simp add: catchBranch_def)
  next
    case False
    show ?thesis
    proof (cases "generateFollowups e msgs APOLOGY_ANSWER effLoc")
      case (Inl err')
      with test False assms(2) show ?thesis by (simp add: catchBranch_def)
    next
      case (Inr gs)
      then have "length gs \<le> 3" by (rule assms(1))
      with test False Inr assms(2) show ?thesis
        by (auto simp: catchBranch_def defaultFollowups_def split: if_splits)
    qed
  qed
qed

lemma onFinal_followups:
  assumes "\<And>ms a l fs. generateFollowups e ms a l = Inr fs \<Longrightarrow> length fs \<le> 3"
    and "snd (onFinal e msgs raw effLoc rag c) = Inr p"
  shows "length (followups p) \<le> 3"
  using assms(2) assms(1)
  by (auto simp: onFinal_def Let_def case_prod_beta split: sum.splits)

lemma startsWithCI_length: "startsWithCI s p \<Longrightarrow> length p \<le> length s"
  by (induction s p rule: startsWithCI.induct) auto

lemma startsWithCI_append:
  "startsWithCI (xs @ ys) p =
     (if length p \<le> length xs then startsWithCI xs p
      else startsWithCI xs (take (length xs) p) \<and> startsWithCI ys (drop (length xs) p))"
  by (induction xs p rule: startsWithCI.induct) auto

lemma startsWithCI_mono: "startsWithCI xs p \<Longrightarrow> startsWithCI (xs @ ys) p"
  by (simp add: startsWithCI_append startsWithCI_length)

lemma includesCI_length: "includesCI s p \<Longrightarrow> length p \<le> length s"
  by (induction s) (auto dest: startsWithCI_length)

lemma pattern_not_empty: "\<not> startsWithCI [] NEXT_STEPS_PATTERN"
  by (simp add: NEXT_STEPS_PATTERN_def)










lemma replaceNextSteps_split:
  "\<exists>rest. s = replaceNextSteps s @ rest \<and> (rest = [] \<or> startsWithCI rest NEXT_STEPS_PATTERN)"
proof (induction s)
  case Nil
  show ?case by simp
next
  case (Cons c cs)
  show ?case
  proof (cases "startsWithCI (c # cs) NEXT_STEPS_PATTERN")
    case True
    then show ?thesis by simp
  next
    case False
    from Cons.IH obtain rest where "cs = replaceNextSteps cs @ rest"
      and "rest = [] \<or> startsWithCI rest NEXT_STEPS_PATTERN" by blast
    with False show ?thesis by auto
  qed
qed

lemma replaceNextSteps_clean: "\<not> includesCI (replaceNextSteps s) NEXT_STEPS_PATTERN"
proof (induction s)
  case Nil
  show ?case by (simp add: pattern_not_empty)
next
  case (Cons c cs)
  show ?case
  proof (cases "startsWithCI (c # cs) NEXT_STEPS_PATTERN")
    case True
    then show ?thesis by (simp add: pattern_not_empty)
  next
    case False
    obtain rest where rest: "cs = replaceNextSteps cs @ rest"
      using replaceNextSteps_split by blast
    have "\<not> startsWithCI (c # replaceNextSteps cs) NEXT_STEPS_PATTERN"
    proof
      assume "startsWithCI (c # replaceNextSteps cs) NEXT_STEPS_PATTERN"
      then have "startsWithCI ((c # replaceNextSteps cs) @ rest) NEXT_STEPS_PATTERN"
        by (rule startsWithCI_mono)
      with rest False show False by simp
    qed
    with False Cons.IH show ?thesis by simp
  qed
qed


lemma replaceNextSteps_append:
  "includesCI s NEXT_STEPS_PATTERN \<Longrightarrow> replaceNextSteps (s @ t) = replaceNextSteps s"
proof (induction s)
  case Nil
  then show ?case by (simp add: pattern_not_empty)
next
  case (Cons c cs)
  show ?case
  proof (cases "startsWithCI (c # cs) NEXT_STEPS_PATTERN")
    case True
    then have "startsWithCI ((c # cs) @ t) NEXT_STEPS_PATTERN" by (rule startsWithCI_mono)
    with True show ?thesis by simp
  next
    case False
    with Cons.prems have inc: "includesCI cs NEXT_STEPS_PATTERN" by simp
    then have "length NEXT_STEPS_PATTERN \<le> length (c # cs)"
      using includesCI_length by fastforce
    then have "startsWithCI ((c # cs) @ t) NEXT_STEPS_PATTERN =
                 startsWithCI (c # cs) NEXT_STEPS_PATTERN"
      by (simp only: startsWithCI_append if_True)
    with False inc Cons.IH show ?thesis by simp
  qed
qed

lemma replaceNextSteps_match:
  "includesCI s NEXT_STEPS_PATTERN \<Longrightarrow>
     \<exists>rest. s = replaceNextSteps s @ rest \<and> startsWithCI rest NEXT_STEPS_PATTERN"
  using replaceNextSteps_split [of s] replaceNextSteps_clean [of s] by auto

lemma appendFeatured_suffix: "\<exists>suffix. appendFeatured effLoc answer featured = answer @ suffix"
  by (simp add: appendFeatured_def Let_def)

section \<open>Intent classification (C4)\<close>

text \<open>
  C4, as the code has it. The lower-cased text is searched for four quiz phrases
  (\<^verbatim>\<open>quiz\<close>, \<^verbatim>\<open>assessment\<close>, \<^verbatim>\<open>which career\<close>, \<^verbatim>\<open>help me decide\<close>) and then for four
  explain phrases (\<^verbatim>\<open>explain\<close>, \<^verbatim>\<open>difference between\<close>, \<^verbatim>\<open>what is the difference\<close>,
  \<^verbatim>\<open>how does\<close>): a text with a quiz phrase is classified \<open>Quiz\<close>; a text with an explain
  phrase and no quiz phrase is classified \<open>Explain\<close>; a text with none of the eight is
  classified \<open>Chat\<close>; the empty text is classified \<open>Chat\<close>, and the handler leaves
  its variable \<^verbatim>\<open>intent\<close> at \<open>Chat\<close>, without a log entry, when \<^verbatim>\<open>lastUserRaw\<close> is empty.
\<close>

theorem classifyIntent_rules:
  "(str_includes (toLowerCase t) ''quiz'' \<or> str_includes (toLowerCase t) ''assessment'' \<or>
    str_includes (toLowerCase t) ''which career'' \<or> str_includes (toLowerCase t) ''help me decide''
      \<longrightarrow> classifyIntent t = Quiz) \<and>
   (\<not> (str_includes (toLowerCase t) ''quiz'' \<or> str_includes (toLowerCase t) ''assessment'' \<or>
       str_includes (toLowerCase t) ''which career'' \<or> str_includes (toLowerCase t) ''help me decide'') \<and>
    (str_includes (toLowerCase t) ''explain'' \<or> str_includes (toLowerCase t) ''difference between'' \<or>
     str_includes (toLowerCase t) ''what is the difference'' \<or> str_includes (toLowerCase t) ''how does'')
      \<longrightarrow> classifyIntent t = Explain) \<and>
   (\<not> (str_includes (toLowerCase t) ''quiz'' \<or> str_includes (toLowerCase t) ''assessment'' \<or>
       str_includes (toLowerCase t) ''which career'' \<or> str_includes (toLowerCase t) ''help me decide'') \<and>
    \<not> (str_includes (toLowerCase t) ''explain'' \<or> str_includes (toLowerCase t) ''difference between'' \<or>
       str_includes (toLowerCase t) ''what is the difference'' \<or> str_includes (toLowerCase t) ''how does'')
      \<longrightarrow> classifyIntent t = Chat) \<and>
   classifyIntent [] = Chat \<and>
   intentStep classifyIntent [] = (Chat, [])"
  (is "(?Q \<longrightarrow> _) \<and> (\<not> ?Q \<and> ?X \<longrightarrow> _) \<and> (\<not> ?Q \<and> \<not> ?X \<longrightarrow> _) \<and> _ \<and> _")
proof -
  have unfolded: "classifyIntent t = (if ?Q then Quiz else if ?X then Explain else Chat)"
    unfolding classifyIntent_def Let_def by (rule refl)
  have quiz: "classifyIntent t = Quiz" if "?Q"
    unfolding unfolded using that by (rule if_P)
  have explain: "classifyIntent t = Explain" if "\<not> ?Q" and "?X"
    unfolding unfolded using that by (simp only: if_P if_not_P if_False)
  have chat: "classifyIntent t = Chat" if "\<not> ?Q" and "\<not> ?X"
    unfolding unfolded using that by (simp only: if_not_P if_False)
  have empty: "classifyIntent [] = Chat"
    by (simp add: classifyIntent_def toLowerCase_def)
  have step: "intentStep classifyIntent [] = (Chat, [])"
    by (simp add: intentStep_def)
  from quiz explain chat empty step show ?thesis by blast
qed

theorem classifyIntent_rules_witness:
  "classifyIntent ''Help me DECIDE'' = Quiz \<and>
   classifyIntent ''How Does it work'' = Explain \<and>
   classifyIntent ''Tell me more'' = Chat"
proof -
  have l1: "toLowerCase ''Help me DECIDE'' = ''help me decide''"
    by (simp add: toLowerCase_def toLowerChar_def)
  have l2: "toLowerCase ''How Does it work'' = ''how does it work''"
    by (simp add: toLowerCase_def toLowerChar_def)
  have l3: "toLowerCase ''Tell me more'' = ''tell me more''"
    by (simp add: toLowerCase_def toLowerChar_def)
  have "classifyIntent ''Help me DECIDE'' = Quiz"
    using classifyIntent_rules [of "''Help me DECIDE''"] unfolding l1 by simp
  moreover have "classifyIntent ''How Does it work'' = Explain"
    using classifyIntent_rules [of "''How Does it work''"] unfolding l2 by simp
  moreover have "classifyIntent ''Tell me more'' = Chat"
    using classifyIntent_rules [of "''Tell me more''"] unfolding l3 by simp
  ultimately show ?thesis by simp
qed

text \<open>
  The claim as worded names two quiz phrases and two explain phrases and sends every
  other text to \<open>Chat\<close>. The text \<^verbatim>\<open>Skills Assessment\<close> contains none of the four named
  phrases and is classified \<open>Quiz\<close>.
\<close>

theorem classifyIntent_counterexample:
  "\<not> str_includes (toLowerCase ''Skills Assessment'') ''quiz'' \<and>
   \<not> str_includes (toLowerCase ''Skills Assessment'') ''which career'' \<and>
   \<not> str_includes (toLowerCase ''Skills Assessment'') ''explain'' \<and>
   \<not> str_includes (toLowerCase ''Skills Assessment'') ''how does'' \<and>
   classifyIntent ''Skills Assessment'' \<noteq> Chat"
  by (simp add: classifyIntent_def toLowerCase_def toLowerChar_def)

section \<open>The guard branch (C2)\<close>

text \<open>
  C2: when the preamble result has \<^verbatim>\<open>domainGuarded\<close> set, the handler returns the fixed
  off-topic answer with exactly the three default follow-ups and status 200, and no
  event of its trace is a call of the completion service.
\<close>

theorem guard_branch:
  assumes "orchestratePreamble e messages loc = Inr pre" and "domainGuarded pre"
  shows "snd (POST e messages loc) =
           Inr (JsonResponse 200 OFF_TOPIC_ANSWER
                  [''Find local apprenticeships'', ''Explore training programs'',
                   ''Compare typical salaries (BLS)'']) \<and>
         filter isCallCompletion (fst (POST e messages loc)) = []"
  using assms
  by (simp add: POST_def POST_with_def defaultFollowups_def case_prod_beta intentStep_filter)

theorem guard_branch_witness:
  "snd (POST (stubEnv (Inr (samplePreamble ''Who won the game?'' None [] True))
                (Inr ''unused'') (Inr []) (Inr [])) [] None) =
     Inr (JsonResponse 200 OFF_TOPIC_ANSWER
            [''Find local apprenticeships'', ''Explore training programs'',
             ''Compare typical salaries (BLS)''])"
proof -
  let ?pre = "samplePreamble ''Who won the game?'' None [] True"
  let ?e = "stubEnv (Inr ?pre) (Inr ''unused'') (Inr []) (Inr [])"
  have h1: "orchestratePreamble ?e [] None = Inr ?pre" by (simp add: stubEnv_def)
  have h2: "domainGuarded ?pre" by (simp add: samplePreamble_def)
  from guard_branch [OF h1 h2] show ?thesis by (rule conjunct1)
qed

section \<open>The location-required branch (C5)\<close>

text \<open>
  C5: when the preamble throws a value whose message is \<^verbatim>\<open>LOCATION_REQUIRED\<close>, so that
  the test of the \<^verbatim>\<open>catch\<close> block is true, the handler returns status 200, the fixed instruction to set a location, and an empty
  list of follow-ups; it calls no other collaborator.
\<close>

theorem location_required_branch:
  assumes "orchestratePreamble e messages loc = Inl err"
    and "messageIsLocationRequired err = Inr True"
  shows "POST e messages loc =
           ([CallPreamble messages loc], Inr (JsonResponse 200 LOCATION_ANSWER []))"
  using assms by (simp add: POST_def POST_with_def catchBranch_def)

theorem location_required_branch_witness:
  "POST (stubEnv (Inl (Error ''LOCATION_REQUIRED'')) (Inr ''unused'') (Inr []) (Inr [''a''])) [] None =
     ([CallPreamble [] None], Inr (JsonResponse 200 LOCATION_ANSWER []))"
proof -
  let ?e = "stubEnv (Inl (Error ''LOCATION_REQUIRED'')) (Inr ''unused'') (Inr []) (Inr [''a''])"
  have h1: "orchestratePreamble ?e [] None = Inl (Error ''LOCATION_REQUIRED'')"
    by (simp add: stubEnv_def)
  have h2: "messageIsLocationRequired (Error ''LOCATION_REQUIRED'') = Inr True" by simp
  from location_required_branch [OF h1 h2] show ?thesis .
qed

section \<open>The composed message sequence (C7)\<close>



section \<open>The generic error branch (C3)\<close>

text \<open>
  C3, as the code has it. When the preamble or the completion call throws a value on
  which the test \<^verbatim>\<open>e.message === 'LOCATION_REQUIRED'\<close> is false (any thrown value but
  \<^verbatim>\<open>null\<close> and \<^verbatim>\<open>undefined\<close>, with another message or none), and the follow-up generator
  called in the \<^verbatim>\<open>catch\<close> block with the apology text returns, the handler returns the
  fixed apology with status 500; the follow-ups are the generator's when it returned at
  least one and the three defaults when it returned none, so there is at least one.
\<close>

theorem generic_error_branch:
  assumes "messageIsLocationRequired err = Inr False"
    and "(orchestratePreamble e messages loc = Inl err \<and> msgs = [] \<and> effLoc = None) \<or>
         (\<exists>pre. orchestratePreamble e messages loc = Inr pre \<and> \<not> domainGuarded pre \<and>
                completionsCreate e (composeMessages (COACH_SYSTEM e) (effectiveLocation pre)
                                       (messagesForLLM pre)) = Inl err \<and>
                msgs = messagesForLLM pre \<and> effLoc = effectiveLocation pre)"
    and "generateFollowups e msgs APOLOGY_ANSWER effLoc = Inr fs"
  shows "snd (POST e messages loc) =
           Inr (JsonResponse 500 APOLOGY_ANSWER (if fs \<noteq> [] then fs else defaultFollowups)) \<and>
         length (if fs \<noteq> [] then fs else defaultFollowups) \<ge> 1"
proof -
  have len: "length (if fs \<noteq> [] then fs else defaultFollowups) \<ge> 1"
    by (cases fs) (simp_all add: defaultFollowups_def)
  have cb: "snd (catchBranch e err msgs effLoc) =
              Inr (JsonResponse 500 APOLOGY_ANSWER (if fs \<noteq> [] then fs else defaultFollowups))"
    using assms(1,3) by (simp add: catchBranch_def)
  from assms(2) have "snd (POST e messages loc) = snd (catchBranch e err msgs effLoc)"
    by (auto simp: POST_def POST_with_def Let_def case_prod_beta)
  with cb len show ?thesis by simp
qed

theorem generic_error_branch_witness:
  "snd (POST (stubEnv (Inl (Error ''database down'')) (Inr ''unused'') (Inr []) (Inr [])) [] None) =
     Inr (JsonResponse 500 APOLOGY_ANSWER
            [''Find local apprenticeships'', ''Explore training programs'',
             ''Compare typical salaries (BLS)''])"
proof -
  let ?e = "stubEnv (Inl (Error ''database down'')) (Inr ''unused'') (Inr []) (Inr [])"
  have h1: "messageIsLocationRequired (Error ''database down'') = Inr False" by simp
  have h2: "(orchestratePreamble ?e [] None = Inl (Error ''database down'') \<and> [] = [] \<and> None = None) \<or>
         (\<exists>pre. orchestratePreamble ?e [] None = Inr pre \<and> \<not> domainGuarded pre \<and>
                completionsCreate ?e (composeMessages (COACH_SYSTEM ?e) (effectiveLocation pre)
                                       (messagesForLLM pre)) = Inl (Error ''database down'') \<and>
                [] = messagesForLLM pre \<and> None = effectiveLocation pre)"
    by (simp add: stubEnv_def)
  have h3: "generateFollowups ?e [] APOLOGY_ANSWER None = Inr []" by (simp add: stubEnv_def)
  from generic_error_branch [OF h1 h2 h3] show ?thesis by (simp add: defaultFollowups_def)
qed

text \<open>
  The call of the follow-up generator in the \<^verbatim>\<open>catch\<close> block is not guarded: when the
  generator throws there, after the preamble has thrown, the handler returns no
  response at all and the generator's error leaves it.
\<close>

theorem generic_error_counterexample:
  "messageIsLocationRequired (Error ''database down'') = Inr False \<and>
   POST (stubEnv (Inl (Error ''database down'')) (Inr ''unused'') (Inr [])
           (Inl (Error ''follow-up service down''))) [] None =
     ([CallPreamble [] None,
       ConsoleError ''Error in /api/chat route:'' (Error ''database down''),
       CallFollowups [] APOLOGY_ANSWER None],
      Inl (Error ''follow-up service down''))"
  by (simp add: POST_def POST_with_def stubEnv_def catchBranch_def)

text \<open>
  A thrown \<^verbatim>\<open>null\<close> or \<^verbatim>\<open>undefined\<close> is outside the statement above: the test on its
  message raises a \<^verbatim>\<open>TypeError\<close> inside the \<^verbatim>\<open>catch\<close> block, before anything is logged, and
  the handler returns no response either.
\<close>

lemma thrown_null_leaves_handler:
  "POST (stubEnv (Inl Nullish) (Inr ''unused'') (Inr []) (Inr [''More''])) [] None =
     ([CallPreamble [] None], Inl TypeError)"
  by (simp add: POST_def POST_with_def stubEnv_def catchBranch_def)

section \<open>The bound on the follow-ups (C8)\<close>

text \<open>
  C8: provided the follow-up generator returns at most three strings whenever it
  returns, every response the handler emits with a list of follow-ups (the JSON
  responses of the guard branch, the location-required branch and the generic error
  branch, and the payload on the side channel of the streamed response) carries at most
  three of them.
\<close>

theorem followups_bounded:
  assumes contract: "\<And>ms a l fs. generateFollowups e ms a l = Inr fs \<Longrightarrow> length fs \<le> 3"
    and emitted: "emittedFollowups (snd (POST e messages loc)) = Some fs"
  shows "length fs \<le> 3"
proof (cases "orchestratePreamble e messages loc")
  case (Inl err)
  with emitted have "emittedFollowups (snd (catchBranch e err [] None)) = Some fs"
    by (simp add: POST_def POST_with_def case_prod_beta)
  with contract show ?thesis by (rule catchBranch_followups)
next
  case (Inr pre)
  show ?thesis
  proof (cases "domainGuarded pre")
    case True
    with Inr emitted show ?thesis
      by (auto simp: POST_def POST_with_def case_prod_beta defaultFollowups_def)
  next
    case False
    let ?composed = "composeMessages (COACH_SYSTEM e) (effectiveLocation pre) (messagesForLLM pre)"
    show ?thesis
    proof (cases "completionsCreate e ?composed")
      case (Inl err)
      with Inr False emitted
      have "emittedFollowups
              (snd (catchBranch e err (messagesForLLM pre) (effectiveLocation pre))) = Some fs"
        by (simp add: POST_def POST_with_def case_prod_beta)
      with contract show ?thesis by (rule catchBranch_followups)
    next
      case (Inr completion)
      let ?fin = "snd (onFinal e (messagesForLLM pre) (lastUserRaw pre) (effectiveLocation pre)
                         (internalRAG pre) completion)"
      from \<open>orchestratePreamble e messages loc = Inr pre\<close> False Inr emitted
      have "emittedFollowups
              (Inr (StreamingTextResponse completion
                      (case ?fin of Inl err \<Rightarrow> None | Inr p \<Rightarrow> Some p))) = Some fs"
        by (simp add: POST_def POST_with_def case_prod_beta)
      then obtain p where "?fin = Inr p" and "fs = followups p"
        by (cases ?fin) auto
      with contract show ?thesis using onFinal_followups by blast
    qed
  qed
qed

theorem followups_bounded_witness:
  "emittedFollowups
     (snd (POST (stubEnv (Inr (samplePreamble ''Hi'' None [] False)) (Inr ''Hello'')
                   (Inr []) (Inr [''Tell me more'', ''What does it pay?''])) [] None)) =
     Some [''Tell me more'', ''What does it pay?''] \<and>
   length [''Tell me more'', ''What does it pay?''] \<le> (3::nat)"
proof -
  let ?e = "stubEnv (Inr (samplePreamble ''Hi'' None [] False)) (Inr ''Hello'')
              (Inr []) (Inr [''Tell me more'', ''What does it pay?''])"
  have h1: "\<And>ms a l fs. generateFollowups ?e ms a l = Inr fs \<Longrightarrow> length fs \<le> 3"
    by (auto simp: stubEnv_def)
  have h2: "emittedFollowups (snd (POST ?e [] None)) = Some [''Tell me more'', ''What does it pay?'']"
    by (simp add: POST_def POST_with_def stubEnv_def samplePreamble_def case_prod_beta
          onFinal_def Let_def)
  from followups_bounded [OF h1 h2] h2 show ?thesis by simp
qed

section \<open>The intent has no effect (C9)\<close>

text \<open>
  C9: whatever the classifier returns, the handler's result (the response with its
  status, answer, follow-ups and streamed text, or the error that leaves it) is the
  same, and so is its trace once the log entries of the intent are left out: the same
  collaborators are called with the same arguments in the same order.
\<close>

theorem intent_no_effect:
  "snd (POST_with classify e messages loc) = snd (POST e messages loc) \<and>
   filter (\<lambda>ev. \<not> isIntentLog ev) (fst (POST_with classify e messages loc)) =
     filter (\<lambda>ev. \<not> isIntentLog ev) (fst (POST e messages loc))"
  by (simp add: POST_def POST_with_def Let_def case_prod_beta intentStep_not_log
        split: sum.splits)

section \<open>A failing listing matcher (C6)\<close>

text \<open>
  C6: when the listing matcher throws during enrichment, the error is logged and
  nothing else happens to it: the answer handed on is the completion as it was, the
  handler still returns its streamed response, and the final answer, which is also the
  answer given to the follow-up generator, is the completion after the next-steps step
  alone.
\<close>

theorem listing_failure_swallowed:
  assumes "orchestratePreamble e messages loc = Inr pre"
    and "\<not> domainGuarded pre"
    and "completionsCreate e (composeMessages (COACH_SYSTEM e) (effectiveLocation pre)
                               (messagesForLLM pre)) = Inr completion"
    and "findFeaturedMatching e (lastUserRaw pre) (effectiveLocation pre) = Inl err"
  shows "featuredStep e (lastUserRaw pre) (effectiveLocation pre) completion =
           ([CallFeatured (lastUserRaw pre) (effectiveLocation pre),
             ConsoleError ''Error finding featured items:'' err], completion) \<and>
         snd (POST e messages loc) =
           Inr (StreamingTextResponse completion
                  (case generateFollowups e
                          (messagesForLLM pre @
                           [\<lparr>msg_id = ''final_answer'', msg_role = Assistant,
                             msg_content = addNextSteps (internalRAG pre) completion\<rparr>])
                          (addNextSteps (internalRAG pre) completion) (effectiveLocation pre) of
                     Inl err' \<Rightarrow> None
                   | Inr fs \<Rightarrow>
                       Some \<lparr>finalAnswer = addNextSteps (internalRAG pre) completion,
                             followups = fs\<rparr>))"
  using assms
  by (simp add: POST_def POST_with_def Let_def case_prod_beta featuredStep_def onFinal_def
        split: sum.splits)

theorem listing_failure_swallowed_witness:
  "snd (POST (stubEnv (Inr (samplePreamble ''cnc jobs'' None [] False)) (Inr ''Try welding.'')
                (Inl (Error ''marketplace down'')) (Inr [''More''])) [] None) =
     Inr (StreamingTextResponse ''Try welding.''
            (Some \<lparr>finalAnswer = ''Try welding.'', followups = [''More'']\<rparr>))"
proof -
  let ?pre = "samplePreamble ''cnc jobs'' None [] False"
  let ?e = "stubEnv (Inr ?pre) (Inr ''Try welding.'') (Inl (Error ''marketplace down''))
              (Inr [''More''])"
  have h1: "orchestratePreamble ?e [] None = Inr ?pre" by (simp add: stubEnv_def)
  have h2: "\<not> domainGuarded ?pre" by (simp add: samplePreamble_def)
  have h3: "completionsCreate ?e (composeMessages (COACH_SYSTEM ?e) (effectiveLocation ?pre)
                                   (messagesForLLM ?pre)) = Inr ''Try welding.''"
    by (simp add: stubEnv_def)
  have h4: "findFeaturedMatching ?e (lastUserRaw ?pre) (effectiveLocation ?pre) =
              Inl (Error ''marketplace down'')"
    by (simp add: stubEnv_def)
  from listing_failure_swallowed [OF h1 h2 h3 h4] show ?thesis
    by (simp add: stubEnv_def samplePreamble_def addNextSteps_def)
qed

section \<open>Listings lost with a stripped section (C10)\<close>

text \<open>
  C10: when \<^verbatim>\<open>internalRAG\<close> is non-empty and the raw completion contains the heading
  \<^verbatim>\<open>**Next Steps:**\<close> after a blank line (in any letter case), the final answer is the
  completion up to that heading followed by the canonical block, whatever listings the
  matcher returned: the Featured block appended to the completion is removed with the
  section, and the final answer is the one a run without listings gives.
\<close>

theorem listings_stripped_with_next_steps:
  assumes "rag \<noteq> []"
    and "includesCI completion NEXT_STEPS_PATTERN"
    and "findFeaturedMatching e raw effLoc = Inr featured"
    and "snd (onFinal e msgs raw effLoc rag completion) = Inr p"
  shows "finalAnswer p = replaceNextSteps completion @ NEXT_STEPS_BLOCK \<and>
         finalAnswer p = addNextSteps rag completion \<and>
         (\<exists>rest. completion = replaceNextSteps completion @ rest \<and>
                 startsWithCI rest NEXT_STEPS_PATTERN)"
proof -
  obtain suffix where "appendFeatured effLoc completion featured = completion @ suffix"
    using appendFeatured_suffix by blast
  with assms(2)
  have "replaceNextSteps (appendFeatured effLoc completion featured) = replaceNextSteps completion"
    by (simp add: replaceNextSteps_append)
  with assms(1,3,4)
  have "finalAnswer p = replaceNextSteps completion @ NEXT_STEPS_BLOCK"
    by (auto simp: onFinal_def featuredStep_def addNextSteps_def Let_def split: sum.splits)
  with assms(1) replaceNextSteps_match [OF assms(2)] show ?thesis
    by (simp add: addNextSteps_def)
qed

theorem listings_stripped_with_next_steps_witness:
  "includesCI answerWithHeading NEXT_STEPS_PATTERN \<and>
   snd (onFinal (stubEnv (Inl (Error ''unused'')) (Inr answerWithHeading) (Inr [sampleListing])
                   (Inr [''More'']))
          [] ''cnc jobs'' (Some ''Austin, TX'') ''docs'' answerWithHeading) =
     Inr \<lparr>finalAnswer = ''Try welding.'' @ NEXT_STEPS_BLOCK, followups = [''More'']\<rparr> \<and>
   replaceNextSteps answerWithHeading = ''Try welding.''"
proof -
  let ?e = "stubEnv (Inl (Error ''unused'')) (Inr answerWithHeading) (Inr [sampleListing])
              (Inr [''More''])"
  let ?p = "\<lparr>finalAnswer = ''Try welding.'' @ NEXT_STEPS_BLOCK, followups = [''More'']\<rparr>"
  have h1: "''docs'' \<noteq> []" by simp
  have h2: "includesCI answerWithHeading NEXT_STEPS_PATTERN" by code_simp
  have h3: "findFeaturedMatching ?e ''cnc jobs'' (Some ''Austin, TX'') = Inr [sampleListing]"
    by (simp add: stubEnv_def)
  have h4: "snd (onFinal ?e [] ''cnc jobs'' (Some ''Austin, TX'') ''docs'' answerWithHeading) = Inr ?p"
    by code_simp
  from listings_stripped_with_next_steps [OF h1 h2 h3 h4]
  have "finalAnswer ?p = replaceNextSteps answerWithHeading @ NEXT_STEPS_BLOCK"
    by (rule conjunct1)
  then have "replaceNextSteps answerWithHeading = ''Try welding.''" by simp
  with h2 h4 show ?thesis by simp
qed

section \<open>One next-steps block (C1)\<close>




end
